theory Spec2Isabelle
  imports Main "HOL-Library.Multiset" "HOL-Library.Sublist"
begin

section \<open>The Redux store of the todo application (src/app/index.jsx)\<close>

subsection \<open>Data model\<close>

text \<open>
  A todo item is the payload built by \<open>prepare\<close> of \<open>addTodo\<close> (lines 42-50):
  \<open>{ id, title, done, createdAt, dateTime }\<close>. The fields \<open>id\<close> and
  \<open>done\<close> are written \<open>id_t\<close> and \<open>done_t\<close> here: \<open>id\<close> is the identity
  function of HOL and \<open>done\<close> is a keyword of Isabelle.
\<close>

record todo =
  id_t :: string
  title :: string
  done_t :: bool
  createdAt :: int
  dateTime :: string

text \<open>\<open>initialState: { items: [] }\<close> of the todos slice (line 34).\<close>

record todos_state =
  items :: "todo list"

definition todos_initialState :: todos_state where
  "todos_initialState = \<lparr>items = []\<rparr>"

text \<open>
  \<open>initialState: { darkMode: false, showBanner: false, bannerMessage: "" }\<close> of the
  ui slice (line 15). The field \<open>showBanner\<close> is written \<open>showBanner_f\<close>: the
  case reducer of the same name keeps the name.
\<close>

record ui_state =
  darkMode :: bool
  showBanner_f :: bool
  bannerMessage :: string

definition ui_initialState :: ui_state where
  "ui_initialState = \<lparr>darkMode = False, showBanner_f = False, bannerMessage = ''''\<rparr>"

text \<open>
  An action is \<open>{ type, payload }\<close>. The payloads of this file are: none (an action
  creator called without argument), a text (a banner message, a todo id) and a todo
  item (the object returned by \<open>prepare\<close>). A case reducer reads \<open>action.payload\<close> at
  the kind its action creator puts there (\<open>text_of\<close>, \<open>item_of\<close>); what it would store
  from a payload of another kind has no value in the state types above, and the model
  leaves it unspecified.
\<close>

datatype payload = Undefined | Text (text_of: string) | Item (item_of: todo)

record action =
  type :: string
  payload :: payload

subsection \<open>The case reducers of the ui slice (lines 17-27)\<close>

definition toggleDarkMode :: "ui_state \<Rightarrow> ui_state" where
  "toggleDarkMode state = state\<lparr>darkMode := \<not> darkMode state\<rparr>"

definition showBanner :: "ui_state \<Rightarrow> string \<Rightarrow> ui_state" where
  "showBanner state message = state\<lparr>showBanner_f := True, bannerMessage := message\<rparr>"

definition dismissBanner :: "ui_state \<Rightarrow> ui_state" where
  "dismissBanner state = state\<lparr>showBanner_f := False, bannerMessage := ''''\<rparr>"

subsection \<open>The case reducers of the todos slice (lines 36-62)\<close>

text \<open>
  \<open>prepare(title)\<close> reads three things from outside: \<open>nanoid()\<close>, \<open>Date.now()\<close> and
  \<open>new Date().toLocaleString()\<close>. They are the parameters of the model, collected in
  one record per call.
\<close>

record effects =
  nanoid :: string
  Date_now :: int
  toLocaleString :: string

definition addTodo_prepare :: "effects \<Rightarrow> string \<Rightarrow> todo" where
  "addTodo_prepare e title_arg =
     \<lparr>id_t = nanoid e, title = title_arg, done_t = False,
      createdAt = Date_now e, dateTime = toLocaleString e\<rparr>"

text \<open>\<open>state.items.unshift(action.payload)\<close>\<close>

definition addTodo_reducer :: "todos_state \<Rightarrow> todo \<Rightarrow> todos_state" where
  "addTodo_reducer state new = state\<lparr>items := new # items state\<rparr>"

text \<open>
  \<open>state.items.find((x) => x.id === action.payload)\<close> returns the first element that
  satisfies the predicate, as a reference into the list (or \<open>undefined\<close>);
  \<open>if (t) t.done = !t.done\<close> writes through that reference. The reference is the
  position returned by \<open>find_pos\<close>.
\<close>

fun find_pos :: "('a \<Rightarrow> bool) \<Rightarrow> 'a list \<Rightarrow> nat option" where
  "find_pos P [] = None"
| "find_pos P (x # xs) = (if P x then Some 0 else map_option Suc (find_pos P xs))"

definition toggleTodo :: "todos_state \<Rightarrow> string \<Rightarrow> todos_state" where
  "toggleTodo state p =
     (case find_pos (\<lambda>x. id_t x = p) (items state) of
        None \<Rightarrow> state
      | Some i \<Rightarrow>
          state\<lparr>items := (items state)
            [i := (items state ! i)\<lparr>done_t := \<not> done_t (items state ! i)\<rparr>]\<rparr>)"

text \<open>\<open>state.items = state.items.filter((x) => x.id !== action.payload)\<close>\<close>

definition removeTodo :: "todos_state \<Rightarrow> string \<Rightarrow> todos_state" where
  "removeTodo state p = state\<lparr>items := filter (\<lambda>x. id_t x \<noteq> p) (items state)\<rparr>"

text \<open>\<open>state.items = state.items.filter(item => item.done)\<close>\<close>

definition clearTodos :: "todos_state \<Rightarrow> todos_state" where
  "clearTodos state = state\<lparr>items := filter (\<lambda>item. done_t item) (items state)\<rparr>"

subsection \<open>Slices, action creators and the store (lines 13, 32, 66-74)\<close>

text \<open>
  \<open>createSlice\<close> and \<open>configureStore\<close> belong to the library @reduxjs/toolkit. The
  reducer of a slice named \<open>n\<close> keeps the case reducers in a plain JavaScript object,
  the one registered under the key \<open>k\<close> as the property \<open>n/k\<close>, and reads the property
  named by the type of the action it is given:
  \<^item> a registered type gives its case reducer, which is run on the state and the action;
  \<^item> a name that every object inherits from \<open>Object.prototype\<close> gives that member, and
    the library calls it in place of a case reducer, on the draft of the state and the
    action, without a receiver;
  \<^item> any other type gives \<open>undefined\<close>, and the state is returned as it is.

  The reducer of the store hands every action to the reducer of each slice.
\<close>

definition actionType :: "string \<Rightarrow> string \<Rightarrow> string" where
  "actionType name key = name @ ''/'' @ key"

text \<open>The own properties of the object: the registered case reducers.\<close>

definition caseReducer ::
  "string \<Rightarrow> (string \<times> ('s \<Rightarrow> action \<Rightarrow> 's)) list \<Rightarrow> string \<Rightarrow> ('s \<Rightarrow> action \<Rightarrow> 's) option" where
  "caseReducer name reducers ty =
     map_of (map (\<lambda>(key, r). (actionType name key, r)) reducers) ty"

text \<open>The properties of \<open>Object.prototype\<close> (ECMAScript, with its Annex B).\<close>

definition inheritedMembers :: "string list" where
  "inheritedMembers =
     [''constructor'', ''hasOwnProperty'', ''isPrototypeOf'', ''propertyIsEnumerable'',
      ''toLocaleString'', ''toString'', ''valueOf'', ''__proto__'',
      ''__defineGetter__'', ''__defineSetter__'', ''__lookupGetter__'', ''__lookupSetter__'']"

text \<open>
  What a slice reducer comes back with: a state of the slice, a text in place of the
  state, or an exception.
\<close>

datatype 's outcome = Returns 's | ReturnsText string | Throws

text \<open>
  An inherited member called on the draft and the action, without a receiver:
  \<open>constructor\<close> is \<open>Object\<close>, which returns its first argument, the draft, so that
  the state stays as it is; \<open>toString\<close> returns the text \<open>[object Undefined]\<close>, which
  the library takes for the next state of the slice; \<open>__proto__\<close> is
  \<open>Object.prototype\<close> itself, which is no function, and every other member converts
  its receiver to an object first: these raise a TypeError.
\<close>

definition inherited_call :: "string \<Rightarrow> 's \<Rightarrow> 's outcome" where
  "inherited_call member state =
     (if member = ''constructor'' then Returns state
      else if member = ''toString'' then ReturnsText ''[object Undefined]''
      else Throws)"

definition slice_reducer ::
  "string \<Rightarrow> (string \<times> ('s \<Rightarrow> action \<Rightarrow> 's)) list \<Rightarrow> 's \<Rightarrow> action \<Rightarrow> 's outcome" where
  "slice_reducer name reducers state a =
     (case caseReducer name reducers (type a) of
        Some r \<Rightarrow> Returns (r state a)
      | None \<Rightarrow>
          if type a \<in> set inheritedMembers then inherited_call (type a) state
          else Returns state)"

definition ui_reducers :: "(string \<times> (ui_state \<Rightarrow> action \<Rightarrow> ui_state)) list" where
  "ui_reducers =
     [(''toggleDarkMode'', \<lambda>state a. toggleDarkMode state),
      (''showBanner'', \<lambda>state a. showBanner state (text_of (payload a))),
      (''dismissBanner'', \<lambda>state a. dismissBanner state)]"

definition todos_reducers :: "(string \<times> (todos_state \<Rightarrow> action \<Rightarrow> todos_state)) list" where
  "todos_reducers =
     [(''addTodo'', \<lambda>state a. addTodo_reducer state (item_of (payload a))),
      (''toggleTodo'', \<lambda>state a. toggleTodo state (text_of (payload a))),
      (''removeTodo'', \<lambda>state a. removeTodo state (text_of (payload a))),
      (''clearTodos'', \<lambda>state a. clearTodos state)]"

definition uiSlice_reducer :: "ui_state \<Rightarrow> action \<Rightarrow> ui_state outcome" where
  "uiSlice_reducer = slice_reducer ''ui'' ui_reducers"

definition todosSlice_reducer :: "todos_state \<Rightarrow> action \<Rightarrow> todos_state outcome" where
  "todosSlice_reducer = slice_reducer ''todos'' todos_reducers"

text \<open>The action creators of lines 66-67.\<close>

definition toggleDarkMode_action :: action where
  "toggleDarkMode_action = \<lparr>type = actionType ''ui'' ''toggleDarkMode'', payload = Undefined\<rparr>"

definition showBanner_action :: "string \<Rightarrow> action" where
  "showBanner_action message = \<lparr>type = actionType ''ui'' ''showBanner'', payload = Text message\<rparr>"

definition dismissBanner_action :: action where
  "dismissBanner_action = \<lparr>type = actionType ''ui'' ''dismissBanner'', payload = Undefined\<rparr>"

definition addTodo_action :: "effects \<Rightarrow> string \<Rightarrow> action" where
  "addTodo_action e title_arg =
     \<lparr>type = actionType ''todos'' ''addTodo'', payload = Item (addTodo_prepare e title_arg)\<rparr>"

definition toggleTodo_action :: "string \<Rightarrow> action" where
  "toggleTodo_action p = \<lparr>type = actionType ''todos'' ''toggleTodo'', payload = Text p\<rparr>"

definition removeTodo_action :: "string \<Rightarrow> action" where
  "removeTodo_action p = \<lparr>type = actionType ''todos'' ''removeTodo'', payload = Text p\<rparr>"

definition clearTodos_action :: action where
  "clearTodos_action = \<lparr>type = actionType ''todos'' ''clearTodos'', payload = Undefined\<rparr>"

text \<open>\<open>configureStore({ reducer: { ui: uiSlice.reducer, todos: todosSlice.reducer } })\<close>\<close>

record store_state =
  ui :: ui_state
  todos :: todos_state

definition store_initialState :: store_state where
  "store_initialState = \<lparr>ui = ui_initialState, todos = todos_initialState\<rparr>"

text \<open>
  \<open>dispatch\<close> runs the reducer of \<open>ui\<close>, then the reducer of \<open>todos\<close>, on the action.
  It returns the next state of the store, or \<open>None\<close> where no state of the store comes
  out: a slice reducer throws, or it leaves a text where the state of its slice was.
  The case reducers of the file do neither: none has a \<open>throw\<close>, and none reads a field
  of a value that may be \<open>undefined\<close> (\<open>t.done\<close> is guarded by \<open>if (t)\<close>). \<open>None\<close>
  comes from the inherited members alone.
\<close>

definition dispatch :: "store_state \<Rightarrow> action \<Rightarrow> store_state option" where
  "dispatch state a =
     (case uiSlice_reducer (ui state) a of
        Returns u \<Rightarrow>
          (case todosSlice_reducer (todos state) a of
             Returns t \<Rightarrow> Some \<lparr>ui = u, todos = t\<rparr>
           | ReturnsText x \<Rightarrow> None
           | Throws \<Rightarrow> None)
      | ReturnsText x \<Rightarrow> None
      | Throws \<Rightarrow> None)"

text \<open>The seven action types for which a case reducer is registered.\<close>

definition knownTypes :: "string list" where
  "knownTypes =
     map (actionType ''ui'') (map fst ui_reducers) @
     map (actionType ''todos'') (map fst todos_reducers)"

subsection \<open>The selectors of the view (lines 189-192, 245-247)\<close>

definition activeTasks :: "store_state \<Rightarrow> todo list" where
  "activeTasks s = filter (\<lambda>item. \<not> done_t item) (items (todos s))"

definition finishedTasks :: "store_state \<Rightarrow> todo list" where
  "finishedTasks s = filter (\<lambda>item. done_t item) (items (todos s))"

subsection \<open>Sequences of dispatches\<close>

text \<open>
  A call of one of the seven action creators, with what \<open>prepare\<close> read from outside
  in the case of \<open>addTodo\<close>; \<open>run\<close> dispatches the actions of a list of calls in order,
  each on the state left by the one before.
\<close>

datatype call =
    ToggleDarkMode
  | ShowBanner string
  | DismissBanner
  | AddTodo effects string
  | ToggleTodo string
  | RemoveTodo string
  | ClearTodos

fun created :: "call \<Rightarrow> action" where
  "created ToggleDarkMode = toggleDarkMode_action"
| "created (ShowBanner message) = showBanner_action message"
| "created DismissBanner = dismissBanner_action"
| "created (AddTodo e title_arg) = addTodo_action e title_arg"
| "created (ToggleTodo p) = toggleTodo_action p"
| "created (RemoveTodo p) = removeTodo_action p"
| "created ClearTodos = clearTodos_action"

fun run :: "store_state \<Rightarrow> call list \<Rightarrow> store_state option" where
  "run state [] = Some state"
| "run state (c # cs) =
     (case dispatch state (created c) of
        None \<Rightarrow> None
      | Some state' \<Rightarrow> run state' cs)"

text \<open>The ids that \<open>nanoid()\<close> returned during a list of calls, oldest first.\<close>

fun nanoids :: "call list \<Rightarrow> string list" where
  "nanoids [] = []"
| "nanoids (AddTodo e title_arg # cs) = nanoid e # nanoids cs"
| "nanoids (c # cs) = nanoids cs"

subsection \<open>The banner invariant\<close>

text \<open>A hidden banner has no message: \<open>showBanner == false\<close> implies \<open>bannerMessage == ""\<close>.\<close>

definition banner_inv :: "ui_state \<Rightarrow> bool" where
  "banner_inv u \<longleftrightarrow> (\<not> showBanner_f u \<longrightarrow> bannerMessage u = '''')"

subsection \<open>Example data\<close>

text \<open>Three items, the second one finished, and two readings of the outside world.\<close>

definition exA :: todo where
  "exA = \<lparr>id_t = ''a1'', title = ''Buy milk'', done_t = False,
          createdAt = 1000, dateTime = ''1/1/2025, 10:00:00 AM''\<rparr>"

definition exB :: todo where
  "exB = \<lparr>id_t = ''b2'', title = ''Call Bob'', done_t = True,
          createdAt = 2000, dateTime = ''1/1/2025, 10:00:01 AM''\<rparr>"

definition exC :: todo where
  "exC = \<lparr>id_t = ''c3'', title = ''Pay rent'', done_t = False,
          createdAt = 3000, dateTime = ''1/1/2025, 10:00:02 AM''\<rparr>"

definition exStore :: store_state where
  "exStore = \<lparr>ui = ui_initialState, todos = \<lparr>items = [exA, exB, exC]\<rparr>\<rparr>"

definition exE1 :: effects where
  "exE1 = \<lparr>nanoid = ''a1'', Date_now = 1000, toLocaleString = ''1/1/2025, 10:00:00 AM''\<rparr>"

definition exE2 :: effects where
  "exE2 = \<lparr>nanoid = ''b2'', Date_now = 2000, toLocaleString = ''1/1/2025, 10:00:01 AM''\<rparr>"

definition exCalls :: "call list" where
  "exCalls =
     [AddTodo exE1 ''Buy milk'', ShowBanner ''A new task has been added to the list'',
      ToggleTodo ''a1'', AddTodo exE2 ''Call Bob'', ClearTodos, RemoveTodo ''a1'']"

definition bogus :: action where
  "bogus = \<lparr>type = ''bogus'', payload = Undefined\<rparr>"

section \<open>Properties\<close>

subsection \<open>What the action of each action creator does to the store\<close>

lemma dispatch_toggleDarkMode:
  "dispatch s toggleDarkMode_action = Some (s\<lparr>ui := toggleDarkMode (ui s)\<rparr>)"
  by (simp add: dispatch_def inheritedMembers_def uiSlice_reducer_def todosSlice_reducer_def
      slice_reducer_def caseReducer_def ui_reducers_def todos_reducers_def actionType_def
      toggleDarkMode_action_def)

lemma dispatch_showBanner:
  "dispatch s (showBanner_action m) = Some (s\<lparr>ui := showBanner (ui s) m\<rparr>)"
  by (simp add: dispatch_def inheritedMembers_def uiSlice_reducer_def todosSlice_reducer_def
      slice_reducer_def caseReducer_def ui_reducers_def todos_reducers_def actionType_def
      showBanner_action_def)

lemma dispatch_dismissBanner:
  "dispatch s dismissBanner_action = Some (s\<lparr>ui := dismissBanner (ui s)\<rparr>)"
  by (simp add: dispatch_def inheritedMembers_def uiSlice_reducer_def todosSlice_reducer_def
      slice_reducer_def caseReducer_def ui_reducers_def todos_reducers_def actionType_def
      dismissBanner_action_def)

lemma dispatch_addTodo:
  "dispatch s (addTodo_action e t) =
     Some (s\<lparr>todos := addTodo_reducer (todos s) (addTodo_prepare e t)\<rparr>)"
  by (simp add: dispatch_def inheritedMembers_def uiSlice_reducer_def todosSlice_reducer_def
      slice_reducer_def caseReducer_def ui_reducers_def todos_reducers_def actionType_def
      addTodo_action_def)

lemma dispatch_toggleTodo:
  "dispatch s (toggleTodo_action p) = Some (s\<lparr>todos := toggleTodo (todos s) p\<rparr>)"
  by (simp add: dispatch_def inheritedMembers_def uiSlice_reducer_def todosSlice_reducer_def
      slice_reducer_def caseReducer_def ui_reducers_def todos_reducers_def actionType_def
      toggleTodo_action_def)

lemma dispatch_removeTodo:
  "dispatch s (removeTodo_action p) = Some (s\<lparr>todos := removeTodo (todos s) p\<rparr>)"
  by (simp add: dispatch_def inheritedMembers_def uiSlice_reducer_def todosSlice_reducer_def
      slice_reducer_def caseReducer_def ui_reducers_def todos_reducers_def actionType_def
      removeTodo_action_def)

lemma dispatch_clearTodos:
  "dispatch s clearTodos_action = Some (s\<lparr>todos := clearTodos (todos s)\<rparr>)"
  by (simp add: dispatch_def inheritedMembers_def uiSlice_reducer_def todosSlice_reducer_def
      slice_reducer_def caseReducer_def ui_reducers_def todos_reducers_def actionType_def
      clearTodos_action_def)

lemmas dispatch_created =
  dispatch_toggleDarkMode dispatch_showBanner dispatch_dismissBanner
  dispatch_addTodo dispatch_toggleTodo dispatch_removeTodo dispatch_clearTodos

subsection \<open>The registered action types\<close>

lemma knownTypes_eq:
  "knownTypes = [''ui/toggleDarkMode'', ''ui/showBanner'', ''ui/dismissBanner'',
     ''todos/addTodo'', ''todos/toggleTodo'', ''todos/removeTodo'', ''todos/clearTodos'']"
  by (simp add: knownTypes_def ui_reducers_def todos_reducers_def actionType_def)

lemma caseReducer_ui_None:
  "caseReducer ''ui'' ui_reducers ty = None \<longleftrightarrow>
     ty \<notin> {''ui/toggleDarkMode'', ''ui/showBanner'', ''ui/dismissBanner''}"
  by (simp add: caseReducer_def ui_reducers_def actionType_def)

lemma caseReducer_todos_None:
  "caseReducer ''todos'' todos_reducers ty = None \<longleftrightarrow>
     ty \<notin> {''todos/addTodo'', ''todos/toggleTodo'', ''todos/removeTodo'', ''todos/clearTodos''}"
  by (simp add: caseReducer_def todos_reducers_def actionType_def)

text \<open>
  Types that name an inherited member: \<open>valueOf\<close> and \<open>__proto__\<close> make the slice
  reducer throw, \<open>toString\<close> makes it return a text, and the dispatch yields no state
  of the store.
\<close>

lemma slice_reducer_inherited:
  "uiSlice_reducer u \<lparr>type = ''valueOf'', payload = p\<rparr> = Throws"
  "uiSlice_reducer u \<lparr>type = ''__proto__'', payload = p\<rparr> = Throws"
  "uiSlice_reducer u \<lparr>type = ''toString'', payload = p\<rparr> = ReturnsText ''[object Undefined]''"
  "todosSlice_reducer t \<lparr>type = ''toString'', payload = p\<rparr> = ReturnsText ''[object Undefined]''"
  "uiSlice_reducer u \<lparr>type = ''constructor'', payload = p\<rparr> = Returns u"
  by (simp_all add: uiSlice_reducer_def todosSlice_reducer_def slice_reducer_def
      caseReducer_def ui_reducers_def todos_reducers_def actionType_def inheritedMembers_def
      inherited_call_def)

lemma dispatch_inherited:
  "dispatch s \<lparr>type = ''valueOf'', payload = p\<rparr> = None"
  "dispatch s \<lparr>type = ''__proto__'', payload = p\<rparr> = None"
  "dispatch s \<lparr>type = ''toString'', payload = p\<rparr> = None"
  by (simp_all add: dispatch_def slice_reducer_inherited)

subsection \<open>The position found by \<open>find\<close>\<close>

lemma find_pos_None: "find_pos P xs = None \<longleftrightarrow> (\<forall>x\<in>set xs. \<not> P x)"
  by (induction xs) auto

lemma find_pos_Some:
  "find_pos P xs = Some i \<Longrightarrow> i < length xs \<and> P (xs ! i) \<and> (\<forall>j<i. \<not> P (xs ! j))"
proof (induction xs arbitrary: i)
  case Nil
  then show ?case by simp
next
  case (Cons x xs)
  show ?case
  proof (cases "P x")
    case True
    with Cons.prems show ?thesis by simp
  next
    case False
    with Cons.prems obtain k where k: "find_pos P xs = Some k" "i = Suc k"
      by auto
    from Cons.IH [OF k(1)] False k(2) show ?thesis
      by (auto simp: nth_Cons split: nat.splits)
  qed
qed

lemma find_pos_cong_ids:
  "map id_t ys = map id_t xs \<Longrightarrow>
   find_pos (\<lambda>x. id_t x = p) ys = find_pos (\<lambda>x. id_t x = p) xs"
proof (induction xs arbitrary: ys)
  case Nil
  then show ?case by simp
next
  case (Cons x xs)
  then obtain y ys' where "ys = y # ys'" by (cases ys) auto
  with Cons show ?case by auto
qed

lemma find_pos_present:
  assumes "p \<in> id_t ` set (items state)"
  obtains i where "find_pos (\<lambda>x. id_t x = p) (items state) = Some i"
proof -
  from assms have "find_pos (\<lambda>x. id_t x = p) (items state) \<noteq> None"
    by (auto simp: find_pos_None)
  then show ?thesis using that by auto
qed

subsection \<open>\<open>toggleTodo\<close> writes one field at one position\<close>

lemma map_id_t_toggle:
  "map id_t (xs[i := (xs ! i)\<lparr>done_t := b\<rparr>]) = map id_t xs"
  by (induction xs arbitrary: i) (auto split: nat.splits)

lemma toggleTodo_at:
  assumes "find_pos (\<lambda>x. id_t x = p) (items state) = Some i"
  shows "items (toggleTodo state p) =
           (items state)[i := (items state ! i)\<lparr>done_t := \<not> done_t (items state ! i)\<rparr>]"
  using assms by (simp add: toggleTodo_def)

lemma items_toggleTodo_ids: "map id_t (items (toggleTodo state p)) = map id_t (items state)"
  by (simp add: toggleTodo_def map_id_t_toggle split: option.splits)

lemma set_ids_toggleTodo: "id_t ` set (items (toggleTodo state p)) = id_t ` set (items state)"
  using arg_cong [OF items_toggleTodo_ids, of set state p] by simp

lemma find_pos_toggleTodo:
  "find_pos (\<lambda>x. id_t x = p) (items (toggleTodo state q)) =
     find_pos (\<lambda>x. id_t x = p) (items state)"
  by (rule find_pos_cong_ids) (rule items_toggleTodo_ids)

lemma toggleTodo_twice: "toggleTodo (toggleTodo state p) p = state"
proof (cases "find_pos (\<lambda>x. id_t x = p) (items state)")
  case None
  then show ?thesis by (simp add: toggleTodo_def)
next
  case (Some i)
  from find_pos_Some [OF Some] have i: "i < length (items state)" by simp
  have again: "find_pos (\<lambda>x. id_t x = p) (items (toggleTodo state p)) = Some i"
    by (simp add: find_pos_toggleTodo Some)
  have "items (toggleTodo (toggleTodo state p) p) = items state"
    using i by (simp add: toggleTodo_at [OF again] toggleTodo_at [OF Some])
  moreover have "todos_state.more (toggleTodo (toggleTodo state p) p) = todos_state.more state"
    by (simp add: toggleTodo_def split: option.splits)
  ultimately show ?thesis by simp
qed

subsection \<open>Sequences of calls\<close>

lemma run_addTodos:
  "run s (map (\<lambda>(e, t). AddTodo e t) ets) =
     Some (s\<lparr>todos := (todos s)\<lparr>items :=
       rev (map (\<lambda>(e, t). addTodo_prepare e t) ets) @ items (todos s)\<rparr>\<rparr>)"
proof (induction ets arbitrary: s)
  case Nil
  show ?case by simp
next
  case (Cons et ets)
  obtain e t where et: "et = (e, t)" by (cases et)
  show ?case
    by (simp add: et dispatch_addTodo Cons.IH addTodo_reducer_def)
qed

lemma run_banner_inv:
  "banner_inv (ui s) \<Longrightarrow> \<exists>s'. run s cs = Some s' \<and> banner_inv (ui s')"
proof (induction cs arbitrary: s)
  case Nil
  then show ?case by simp
next
  case (Cons c cs)
  obtain s1 where s1: "dispatch s (created c) = Some s1" "banner_inv (ui s1)"
    using Cons.prems
    by (cases c) (simp_all add: dispatch_created banner_inv_def toggleDarkMode_def
        showBanner_def dismissBanner_def)
  from Cons.IH [OF s1(2)] s1(1) show ?case by simp
qed

text \<open>
  The ids in the list stay pairwise distinct along a run, provided they are distinct at
  the start, none of them is generated again, and no id is generated twice.
\<close>

lemma run_distinct_ids:
  assumes "distinct (map id_t (items (todos s)))"
    and "set (map id_t (items (todos s))) \<inter> set (nanoids cs) = {}"
    and "distinct (nanoids cs)"
  shows "\<exists>s'. run s cs = Some s' \<and> distinct (map id_t (items (todos s')))"
  using assms
proof (induction cs arbitrary: s)
  case Nil
  then show ?case by simp
next
  case (Cons c cs)
  have "\<exists>s1. dispatch s (created c) = Some s1
      \<and> distinct (map id_t (items (todos s1)))
      \<and> set (map id_t (items (todos s1))) \<inter> set (nanoids cs) = {}
      \<and> distinct (nanoids cs)"
  proof (cases c)
    case (AddTodo e t)
    with Cons.prems show ?thesis
      by (auto simp: dispatch_addTodo addTodo_reducer_def addTodo_prepare_def)
  next
    case (ToggleTodo p)
    with Cons.prems show ?thesis
      by (simp add: dispatch_toggleTodo items_toggleTodo_ids set_ids_toggleTodo)
  next
    case (RemoveTodo p)
    with Cons.prems show ?thesis
      by (auto simp: dispatch_removeTodo removeTodo_def distinct_map_filter)
  next
    case ClearTodos
    with Cons.prems show ?thesis
      by (auto simp: dispatch_clearTodos clearTodos_def distinct_map_filter)
  qed (use Cons.prems in \<open>simp_all add: dispatch_created\<close>)
  then obtain s1 where s1: "dispatch s (created c) = Some s1"
      "distinct (map id_t (items (todos s1)))"
      "set (map id_t (items (todos s1))) \<inter> set (nanoids cs) = {}"
      "distinct (nanoids cs)" by blast
  from Cons.IH [OF s1(2) s1(3) s1(4)] s1(1) show ?case by simp
qed

section \<open>The claims\<close>

text \<open>
  C1. \<open>clearTodos\<close> keeps exactly the items with \<open>done == true\<close>, in their original
  order, and drops the others: the new list is the old one filtered by \<open>done\<close>; it is
  a subsequence of the old list, all of its items are finished, and every finished item
  occurs in it as often as before. On \<open>[A, B, C]\<close> with only \<open>B\<close> finished the result
  is \<open>[B]\<close>, and a list with a finished item is never emptied. The dispatched
  \<open>clearTodos()\<close> action does exactly this to the todos slice.
\<close>

theorem clearTodos_retains_finished:
  "items (clearTodos state) = filter done_t (items state)
   \<and> (\<forall>x\<in>set (items (clearTodos state)). done_t x)
   \<and> subseq (items (clearTodos state)) (items state)
   \<and> (\<forall>x. done_t x \<longrightarrow> count_list (items (clearTodos state)) x = count_list (items state) x)
   \<and> (\<not> done_t a \<and> done_t b \<and> \<not> done_t c \<longrightarrow>
        items (clearTodos \<lparr>items = [a, b, c]\<rparr>) = [b])
   \<and> ((\<exists>x\<in>set (items state). done_t x) \<longrightarrow> items (clearTodos state) \<noteq> [])
   \<and> dispatch s clearTodos_action = Some (s\<lparr>todos := clearTodos (todos s)\<rparr>)"
proof -
  have count: "done_t x \<Longrightarrow> count_list (filter done_t xs) x = count_list xs x"
    for x :: todo and xs
    by (induction xs) auto
  have nonempty: "(\<exists>x\<in>set xs. done_t x) \<Longrightarrow> filter done_t xs \<noteq> []" for xs :: "todo list"
    by (simp add: filter_empty_conv)
  show ?thesis
    using count nonempty by (simp add: clearTodos_def dispatch_clearTodos)
qed

theorem clearTodos_retains_finished_witness:
  "\<not> done_t exA \<and> done_t exB \<and> \<not> done_t exC
   \<and> exB \<in> set (items (todos exStore))
   \<and> items (clearTodos (todos exStore)) = [exB]
   \<and> items (clearTodos (todos exStore)) \<noteq> []
   \<and> count_list (items (clearTodos (todos exStore))) exB = 1"
proof -
  have flags: "\<not> done_t exA \<and> done_t exB \<and> \<not> done_t exC"
    by (simp add: exA_def exB_def exC_def)
  have st: "todos exStore = \<lparr>items = [exA, exB, exC]\<rparr>"
    by (simp add: exStore_def)
  have neq: "exA \<noteq> exB" "exC \<noteq> exB"
    by (simp_all add: exA_def exB_def exC_def)
  from clearTodos_retains_finished [of "todos exStore" exA exB exC exStore] flags neq
  show ?thesis
    by (simp add: st)
qed

text \<open>
  C2. For every state and every title, the empty one included, the dispatched
  \<open>addTodo(title)\<close> action puts exactly one new item in front of the list: its title
  is the given one, it is not done, and its id is the one \<open>nanoid()\<close> returned for
  this call. After \<open>n\<close> such calls on the initial store the list has \<open>n\<close> items and
  its head is the item of the last call.
\<close>

theorem addTodo_prepends_new_item:
  "dispatch s (addTodo_action e t) =
     Some (s\<lparr>todos := (todos s)\<lparr>items := addTodo_prepare e t # items (todos s)\<rparr>\<rparr>)
   \<and> title (addTodo_prepare e t) = t
   \<and> \<not> done_t (addTodo_prepare e t)
   \<and> id_t (addTodo_prepare e t) = nanoid e
   \<and> (\<exists>s'. run store_initialState (map (\<lambda>(e', t'). AddTodo e' t') ets) = Some s'
        \<and> length (items (todos s')) = length ets
        \<and> (ets \<noteq> [] \<longrightarrow>
             hd (items (todos s')) = addTodo_prepare (fst (last ets)) (snd (last ets))))"
proof -
  have hd_rev: "ets \<noteq> [] \<Longrightarrow>
    hd (rev (map (\<lambda>(e', t'). addTodo_prepare e' t') ets)) =
      addTodo_prepare (fst (last ets)) (snd (last ets))"
    by (simp add: hd_rev last_map case_prod_beta)
  show ?thesis
    using hd_rev
    by (simp add: dispatch_addTodo addTodo_reducer_def run_addTodos addTodo_prepare_def
        store_initialState_def todos_initialState_def)
qed

theorem addTodo_prepends_new_item_witness:
  "[(exE1, ''Buy milk''), (exE2, '''')] \<noteq> []
   \<and> (\<exists>s'. run store_initialState [AddTodo exE1 ''Buy milk'', AddTodo exE2 ''''] = Some s'
        \<and> length (items (todos s')) = 2
        \<and> hd (items (todos s')) = addTodo_prepare exE2 ''''
        \<and> title (hd (items (todos s'))) = '''')"
proof -
  have ne: "[(exE1, ''Buy milk''), (exE2, '''')] \<noteq> []" by simp
  from addTodo_prepends_new_item [where ets = "[(exE1, ''Buy milk''), (exE2, '''')]"
      and s = store_initialState and e = exE2 and t = "''''"]
  obtain s' where
    r: "run store_initialState [AddTodo exE1 ''Buy milk'', AddTodo exE2 ''''] = Some s'"
    and l: "length (items (todos s')) = 2"
    and h: "hd (items (todos s')) = addTodo_prepare exE2 ''''"
    and t: "title (addTodo_prepare exE2 '''') = ''''"
    by auto
  from ne r l h t show ?thesis by simp
qed

text \<open>
  C3. The two selectors \<open>activeTasks\<close> (not done) and \<open>finishedTasks\<close> (done)
  partition the items: together they hold the same items as the list, as multisets; no
  item is in both; every item of the list is in exactly one of them; and their lengths
  add up to the length of the list.
\<close>

theorem activeTasks_finishedTasks_partition:
  "mset (activeTasks s) + mset (finishedTasks s) = mset (items (todos s))
   \<and> set (activeTasks s) \<inter> set (finishedTasks s) = {}
   \<and> set (activeTasks s) \<union> set (finishedTasks s) = set (items (todos s))
   \<and> (\<forall>x\<in>set (items (todos s)). (x \<in> set (activeTasks s)) \<noteq> (x \<in> set (finishedTasks s)))
   \<and> length (activeTasks s) + length (finishedTasks s) = length (items (todos s))"
proof -
  have m: "mset (activeTasks s) + mset (finishedTasks s) = mset (items (todos s))"
    unfolding activeTasks_def finishedTasks_def mset_filter by (simp add: add.commute)
  have l: "length (activeTasks s) + length (finishedTasks s) = length (items (todos s))"
    using arg_cong [OF m, of size] by simp
  show ?thesis
    using m l by (auto simp: activeTasks_def finishedTasks_def)
qed

theorem activeTasks_finishedTasks_partition_witness:
  "exB \<in> set (items (todos exStore))
   \<and> exB \<in> set (finishedTasks exStore) \<and> exB \<notin> set (activeTasks exStore)
   \<and> exA \<in> set (items (todos exStore))
   \<and> exA \<in> set (activeTasks exStore) \<and> exA \<notin> set (finishedTasks exStore)
   \<and> length (activeTasks exStore) + length (finishedTasks exStore) = 3"
proof -
  have mem: "exA \<in> set (items (todos exStore))" "exB \<in> set (items (todos exStore))"
    by (simp_all add: exStore_def)
  have fin: "exB \<in> set (finishedTasks exStore)"
    by (simp add: finishedTasks_def exStore_def exB_def)
  have act: "exA \<in> set (activeTasks exStore)"
    by (simp add: activeTasks_def exStore_def exA_def)
  have len: "length (items (todos exStore)) = 3"
    by (simp add: exStore_def)
  from activeTasks_finishedTasks_partition [of exStore] mem fin act len
  show ?thesis by auto
qed

text \<open>
  C4. With an id that no item of the list carries, \<open>toggleTodo\<close> and \<open>removeTodo\<close>
  return the state as it was, and dispatching their actions returns the store as it was,
  without an error.
\<close>

theorem unknown_id_is_noop:
  assumes "p \<notin> id_t ` set (items (todos s))"
  shows "toggleTodo (todos s) p = todos s \<and> removeTodo (todos s) p = todos s
    \<and> dispatch s (toggleTodo_action p) = Some s \<and> dispatch s (removeTodo_action p) = Some s"
proof -
  from assms have none: "\<forall>x\<in>set (items (todos s)). id_t x \<noteq> p" by auto
  then have "find_pos (\<lambda>x. id_t x = p) (items (todos s)) = None"
    by (simp add: find_pos_None)
  then have t: "toggleTodo (todos s) p = todos s"
    by (simp add: toggleTodo_def)
  from none have "filter (\<lambda>x. id_t x \<noteq> p) (items (todos s)) = items (todos s)"
    by (simp add: filter_id_conv)
  then have r: "removeTodo (todos s) p = todos s"
    by (simp add: removeTodo_def)
  show ?thesis
    by (simp add: t r dispatch_toggleTodo dispatch_removeTodo)
qed

theorem unknown_id_is_noop_witness:
  "''zz9'' \<notin> id_t ` set (items (todos exStore))
   \<and> toggleTodo (todos exStore) ''zz9'' = todos exStore
   \<and> removeTodo (todos exStore) ''zz9'' = todos exStore
   \<and> dispatch exStore (toggleTodo_action ''zz9'') = Some exStore
   \<and> dispatch exStore (removeTodo_action ''zz9'') = Some exStore"
proof -
  have h: "''zz9'' \<notin> id_t ` set (items (todos exStore))"
    by (simp add: exStore_def exA_def exB_def exC_def)
  from unknown_id_is_noop [OF h] h show ?thesis by simp
qed

text \<open>
  C5, as the specification states it: an action whose type is none of the seven
  registered ones is rejected with an error. The store does not do that: the action
  \<open>{ type: "bogus" }\<close> dispatched on the initial store returns the initial store.
\<close>

theorem unknown_type_counterexample:
  "type bogus \<notin> set knownTypes
   \<and> dispatch store_initialState bogus = Some store_initialState"
  by (simp add: bogus_def knownTypes_eq dispatch_def inheritedMembers_def
      uiSlice_reducer_def todosSlice_reducer_def slice_reducer_def caseReducer_def
      ui_reducers_def todos_reducers_def actionType_def store_initialState_def)

text \<open>
  C5, amended: an action whose type is none of the seven registered ones is not rejected
  for that: when the type is not the name of a member inherited from
  \<open>Object.prototype\<close> either, the dispatch is a silent no-op and returns the store as
  it was. The action of every action creator is accepted and has a registered type; for
  a registered type exactly one of the two slices has a case reducer; the dispatch
  replaces the state of that slice by what that case reducer returns, and the slice
  that has none keeps its state.
\<close>

theorem unregistered_type_is_noop:
  "(type a \<notin> set knownTypes \<and> type a \<notin> set inheritedMembers \<longrightarrow> dispatch s a = Some s)
   \<and> dispatch s (created c) \<noteq> None
   \<and> type (created c) \<in> set knownTypes
   \<and> (type a \<in> set knownTypes \<longrightarrow>
        (caseReducer ''ui'' ui_reducers (type a) = None)
          \<noteq> (caseReducer ''todos'' todos_reducers (type a) = None))
   \<and> (\<forall>r. caseReducer ''ui'' ui_reducers (type (created c)) = Some r \<longrightarrow>
        dispatch s (created c) = Some (s\<lparr>ui := r (ui s) (created c)\<rparr>))
   \<and> (\<forall>r. caseReducer ''todos'' todos_reducers (type (created c)) = Some r \<longrightarrow>
        dispatch s (created c) = Some (s\<lparr>todos := r (todos s) (created c)\<rparr>))
   \<and> (caseReducer ''ui'' ui_reducers (type (created c)) = None \<longrightarrow>
        (\<exists>s'. dispatch s (created c) = Some s' \<and> ui s' = ui s))
   \<and> (caseReducer ''todos'' todos_reducers (type (created c)) = None \<longrightarrow>
        (\<exists>s'. dispatch s (created c) = Some s' \<and> todos s' = todos s))"
proof -
  have unknown:
    "type a \<notin> set knownTypes \<and> type a \<notin> set inheritedMembers \<longrightarrow> dispatch s a = Some s"
  proof
    assume *: "type a \<notin> set knownTypes \<and> type a \<notin> set inheritedMembers"
    then have "caseReducer ''ui'' ui_reducers (type a) = None"
      by (simp add: caseReducer_ui_None knownTypes_eq)
    moreover from * have "caseReducer ''todos'' todos_reducers (type a) = None"
      by (simp add: caseReducer_todos_None knownTypes_eq)
    ultimately show "dispatch s a = Some s"
      using * by (simp add: dispatch_def uiSlice_reducer_def todosSlice_reducer_def
          slice_reducer_def)
  qed
  have accepted: "dispatch s (created c) \<noteq> None"
    by (cases c) (simp_all add: dispatch_created)
  have creators: "type (created c) \<in> set knownTypes"
    by (cases c) (simp_all add: knownTypes_eq actionType_def toggleDarkMode_action_def
        showBanner_action_def dismissBanner_action_def addTodo_action_def
        toggleTodo_action_def removeTodo_action_def clearTodos_action_def)
  have one_ty: "(caseReducer ''ui'' ui_reducers ty = None)
          \<noteq> (caseReducer ''todos'' todos_reducers ty = None)"
    if "ty \<in> set knownTypes" for ty
    using that by (auto simp: knownTypes_eq caseReducer_ui_None caseReducer_todos_None)
  then have one: "type a \<in> set knownTypes \<longrightarrow>
        (caseReducer ''ui'' ui_reducers (type a) = None)
          \<noteq> (caseReducer ''todos'' todos_reducers (type a) = None)"
    by simp
  have not_inherited: "type (created c) \<notin> set inheritedMembers"
    by (cases c) (simp_all add: inheritedMembers_def actionType_def toggleDarkMode_action_def
        showBanner_action_def dismissBanner_action_def addTodo_action_def
        toggleTodo_action_def removeTodo_action_def clearTodos_action_def)
  from one_ty [OF creators] have other:
    "caseReducer ''ui'' ui_reducers (type (created c)) = Some r \<Longrightarrow>
       caseReducer ''todos'' todos_reducers (type (created c)) = None"
    "caseReducer ''todos'' todos_reducers (type (created c)) = Some r' \<Longrightarrow>
       caseReducer ''ui'' ui_reducers (type (created c)) = None" for r r'
    by auto
  have routed_ui: "\<forall>r. caseReducer ''ui'' ui_reducers (type (created c)) = Some r \<longrightarrow>
        dispatch s (created c) = Some (s\<lparr>ui := r (ui s) (created c)\<rparr>)"
    using not_inherited other(1)
    by (auto simp: dispatch_def uiSlice_reducer_def todosSlice_reducer_def slice_reducer_def)
  have routed_todos: "\<forall>r. caseReducer ''todos'' todos_reducers (type (created c)) = Some r \<longrightarrow>
        dispatch s (created c) = Some (s\<lparr>todos := r (todos s) (created c)\<rparr>)"
    using not_inherited other(2)
    by (auto simp: dispatch_def uiSlice_reducer_def todosSlice_reducer_def slice_reducer_def)
  have frame_ui: "caseReducer ''ui'' ui_reducers (type (created c)) = None \<longrightarrow>
        (\<exists>s'. dispatch s (created c) = Some s' \<and> ui s' = ui s)"
    using not_inherited
    by (auto simp: dispatch_def uiSlice_reducer_def todosSlice_reducer_def slice_reducer_def
        split: option.splits)
  have frame_todos: "caseReducer ''todos'' todos_reducers (type (created c)) = None \<longrightarrow>
        (\<exists>s'. dispatch s (created c) = Some s' \<and> todos s' = todos s)"
    using not_inherited
    by (auto simp: dispatch_def uiSlice_reducer_def todosSlice_reducer_def slice_reducer_def
        split: option.splits)
  show ?thesis
    by (intro conjI) (rule unknown accepted creators one routed_ui routed_todos
        frame_ui frame_todos)+
qed

theorem unregistered_type_is_noop_witness:
  "type bogus \<notin> set knownTypes
   \<and> type bogus \<notin> set inheritedMembers
   \<and> dispatch exStore bogus = Some exStore
   \<and> type (created (ToggleTodo ''b2'')) \<in> set knownTypes
   \<and> caseReducer ''ui'' ui_reducers (type (created (ToggleTodo ''b2''))) = None
   \<and> caseReducer ''todos'' todos_reducers (type (created (ToggleTodo ''b2''))) \<noteq> None
   \<and> (\<exists>s'. dispatch exStore (created (ToggleTodo ''b2'')) = Some s' \<and> ui s' = ui exStore)"
proof -
  note inst = unregistered_type_is_noop [of "created (ToggleTodo ''b2'')" exStore "ToggleTodo ''b2''"]
  have u: "type bogus \<notin> set knownTypes" "type bogus \<notin> set inheritedMembers"
    by (simp_all add: bogus_def knownTypes_eq inheritedMembers_def)
  from unregistered_type_is_noop [of bogus exStore] u
  have 1: "dispatch exStore bogus = Some exStore" by simp
  from inst have k: "type (created (ToggleTodo ''b2'')) \<in> set knownTypes" by simp
  have n: "caseReducer ''ui'' ui_reducers (type (created (ToggleTodo ''b2''))) = None"
    by (simp add: caseReducer_ui_None toggleTodo_action_def actionType_def)
  from inst k n
  have 2: "caseReducer ''todos'' todos_reducers (type (created (ToggleTodo ''b2''))) \<noteq> None"
    by simp
  from inst n
  have 3: "\<exists>s'. dispatch exStore (created (ToggleTodo ''b2'')) = Some s' \<and> ui s' = ui exStore"
    by simp
  from u 1 k n 2 3 show ?thesis by simp
qed

text \<open>
  C6. With an id that some item carries, \<open>toggleTodo\<close> flips the done flag of the
  first item with that id, and a second \<open>toggleTodo\<close> with the same id gives that flag
  its original value back; the whole state is then the original one, and so is the
  store after the two dispatches.
\<close>

theorem toggleTodo_involution:
  assumes "p \<in> id_t ` set (items state)"
  shows "(\<exists>i<length (items state). id_t (items state ! i) = p
            \<and> (\<forall>j<i. id_t (items state ! j) \<noteq> p)
            \<and> done_t (items (toggleTodo state p) ! i) = (\<not> done_t (items state ! i))
            \<and> done_t (items (toggleTodo (toggleTodo state p) p) ! i) = done_t (items state ! i))
    \<and> toggleTodo (toggleTodo state p) p = state
    \<and> (todos s = state \<longrightarrow> run s [ToggleTodo p, ToggleTodo p] = Some s)"
proof -
  from assms obtain i where Some: "find_pos (\<lambda>x. id_t x = p) (items state) = Some i"
    by (rule find_pos_present)
  from find_pos_Some [OF Some]
  have i: "i < length (items state)" "id_t (items state ! i) = p"
    "\<forall>j<i. id_t (items state ! j) \<noteq> p" by simp_all
  have once: "done_t (items (toggleTodo state p) ! i) = (\<not> done_t (items state ! i))"
    using i(1) by (simp add: toggleTodo_at [OF Some])
  have twice: "toggleTodo (toggleTodo state p) p = state"
    by (rule toggleTodo_twice)
  have "todos s = state \<longrightarrow> run s [ToggleTodo p, ToggleTodo p] = Some s"
    by (auto simp: dispatch_toggleTodo toggleTodo_twice)
  with i once twice show ?thesis by auto
qed

theorem toggleTodo_involution_witness:
  "''b2'' \<in> id_t ` set (items (todos exStore))
   \<and> items (toggleTodo (todos exStore) ''b2'') = [exA, exB\<lparr>done_t := False\<rparr>, exC]
   \<and> toggleTodo (toggleTodo (todos exStore) ''b2'') ''b2'' = todos exStore
   \<and> run exStore [ToggleTodo ''b2'', ToggleTodo ''b2''] = Some exStore"
proof -
  have h: "''b2'' \<in> id_t ` set (items (todos exStore))"
    by (simp add: exStore_def exA_def exB_def exC_def)
  have once: "items (toggleTodo (todos exStore) ''b2'') = [exA, exB\<lparr>done_t := False\<rparr>, exC]"
    by (simp add: toggleTodo_def exStore_def exA_def exB_def exC_def)
  from toggleTodo_involution [OF h, of exStore] h once show ?thesis by simp
qed

text \<open>
  C7. \<open>dismissBanner\<close> hides the banner and empties its message, whatever the state,
  and leaves the theme alone; applied to its own result it changes nothing, and on a
  state whose banner is already dismissed it returns that very state. Two dispatches in
  a row leave the store as one does.
\<close>

theorem dismissBanner_idempotent:
  "showBanner_f (dismissBanner u) = False
   \<and> bannerMessage (dismissBanner u) = ''''
   \<and> darkMode (dismissBanner u) = darkMode u
   \<and> dismissBanner (dismissBanner u) = dismissBanner u
   \<and> (\<not> showBanner_f u \<and> bannerMessage u = '''' \<longrightarrow> dismissBanner u = u)
   \<and> run s [DismissBanner, DismissBanner] = run s [DismissBanner]"
  by (simp add: dismissBanner_def dispatch_dismissBanner)

theorem dismissBanner_idempotent_witness:
  "\<not> showBanner_f ui_initialState \<and> bannerMessage ui_initialState = ''''
   \<and> dismissBanner ui_initialState = ui_initialState
   \<and> dismissBanner (dismissBanner (showBanner ui_initialState ''hello''))
       = dismissBanner (showBanner ui_initialState ''hello'')"
proof -
  have h: "\<not> showBanner_f ui_initialState \<and> bannerMessage ui_initialState = ''''"
    by (simp add: ui_initialState_def)
  from dismissBanner_idempotent [of ui_initialState] h
    dismissBanner_idempotent [of "showBanner ui_initialState ''hello''"]
  show ?thesis by simp
qed

text \<open>
  C8. The banner invariant (a hidden banner has an empty message) holds of the initial
  ui state, is kept by \<open>toggleDarkMode\<close>, by \<open>showBanner\<close> with any message and by
  \<open>dismissBanner\<close>, and so holds of the ui state after any sequence of calls of the
  action creators on the initial store.
\<close>

theorem banner_invariant:
  "banner_inv ui_initialState
   \<and> (banner_inv u \<longrightarrow> banner_inv (toggleDarkMode u))
   \<and> (banner_inv u \<longrightarrow> banner_inv (showBanner u m))
   \<and> (banner_inv u \<longrightarrow> banner_inv (dismissBanner u))
   \<and> (\<exists>s'. run store_initialState cs = Some s' \<and> banner_inv (ui s'))"
proof -
  have init: "banner_inv ui_initialState"
    by (simp add: banner_inv_def ui_initialState_def)
  then have "banner_inv (ui store_initialState)"
    by (simp add: store_initialState_def)
  from run_banner_inv [OF this] init show ?thesis
    by (simp add: banner_inv_def toggleDarkMode_def showBanner_def dismissBanner_def)
qed

theorem banner_invariant_witness:
  "banner_inv ui_initialState
   \<and> banner_inv (toggleDarkMode ui_initialState)
   \<and> \<not> showBanner_f (toggleDarkMode ui_initialState)
   \<and> bannerMessage (toggleDarkMode ui_initialState) = ''''
   \<and> (\<exists>s'. run store_initialState [ShowBanner ''hello'', ToggleDarkMode, DismissBanner] = Some s'
        \<and> \<not> showBanner_f (ui s') \<and> bannerMessage (ui s') = '''')"
proof -
  note inv = banner_invariant [of ui_initialState "''hello''"
      "[ShowBanner ''hello'', ToggleDarkMode, DismissBanner]"]
  from inv have 0: "banner_inv ui_initialState" by simp
  with inv have 1: "banner_inv (toggleDarkMode ui_initialState)" by simp
  have 2: "\<not> showBanner_f (toggleDarkMode ui_initialState)"
    by (simp add: toggleDarkMode_def ui_initialState_def)
  with 1 have 3: "bannerMessage (toggleDarkMode ui_initialState) = ''''"
    by (simp add: banner_inv_def)
  from inv obtain s' where
    s': "run store_initialState [ShowBanner ''hello'', ToggleDarkMode, DismissBanner] = Some s'"
    and "banner_inv (ui s')" by blast
  moreover from s' have "\<not> showBanner_f (ui s')"
    by (auto simp: dispatch_created dismissBanner_def)
  ultimately have 4: "\<exists>s'. run store_initialState
      [ShowBanner ''hello'', ToggleDarkMode, DismissBanner] = Some s'
        \<and> \<not> showBanner_f (ui s') \<and> bannerMessage (ui s') = ''''"
    by (auto simp: banner_inv_def)
  from 0 1 2 3 4 show ?thesis by simp
qed

text \<open>
  C9. If \<open>nanoid()\<close> never returns the same id twice during a sequence of calls of the
  action creators, then the sequence runs through on the initial store and the ids of
  the items of the resulting list are pairwise distinct.
\<close>

theorem ids_pairwise_distinct:
  assumes "distinct (nanoids cs)"
  shows "\<exists>s'. run store_initialState cs = Some s' \<and> distinct (map id_t (items (todos s')))"
  using assms
  by (intro run_distinct_ids) (simp_all add: store_initialState_def todos_initialState_def)

theorem ids_pairwise_distinct_witness:
  "distinct (nanoids exCalls)
   \<and> (\<exists>s'. run store_initialState exCalls = Some s' \<and> distinct (map id_t (items (todos s'))))"
proof -
  have h: "distinct (nanoids exCalls)"
    by (simp add: exCalls_def exE1_def exE2_def)
  from ids_pairwise_distinct [OF h] h show ?thesis by simp
qed

text \<open>
  C10. With an id that some item carries, \<open>toggleTodo\<close> changes the done field of the
  first item with that id and nothing else: the list keeps its length, every other
  position keeps its item, and the item at that position keeps its id, title, createdAt
  and dateTime.
\<close>

theorem toggleTodo_frame:
  assumes "p \<in> id_t ` set (items state)"
  shows "\<exists>i<length (items state). id_t (items state ! i) = p
            \<and> (\<forall>j<i. id_t (items state ! j) \<noteq> p)
            \<and> length (items (toggleTodo state p)) = length (items state)
            \<and> (\<forall>j<length (items state). j \<noteq> i \<longrightarrow>
                 items (toggleTodo state p) ! j = items state ! j)
            \<and> id_t (items (toggleTodo state p) ! i) = id_t (items state ! i)
            \<and> title (items (toggleTodo state p) ! i) = title (items state ! i)
            \<and> createdAt (items (toggleTodo state p) ! i) = createdAt (items state ! i)
            \<and> dateTime (items (toggleTodo state p) ! i) = dateTime (items state ! i)
            \<and> done_t (items (toggleTodo state p) ! i) = (\<not> done_t (items state ! i))"
proof -
  from assms obtain i where Some: "find_pos (\<lambda>x. id_t x = p) (items state) = Some i"
    by (rule find_pos_present)
  from find_pos_Some [OF Some]
  have i: "i < length (items state)" "id_t (items state ! i) = p"
    "\<forall>j<i. id_t (items state ! j) \<noteq> p" by simp_all
  have "length (items (toggleTodo state p)) = length (items state)
            \<and> (\<forall>j<length (items state). j \<noteq> i \<longrightarrow>
                 items (toggleTodo state p) ! j = items state ! j)
            \<and> id_t (items (toggleTodo state p) ! i) = id_t (items state ! i)
            \<and> title (items (toggleTodo state p) ! i) = title (items state ! i)
            \<and> createdAt (items (toggleTodo state p) ! i) = createdAt (items state ! i)
            \<and> dateTime (items (toggleTodo state p) ! i) = dateTime (items state ! i)
            \<and> done_t (items (toggleTodo state p) ! i) = (\<not> done_t (items state ! i))"
    using i(1) by (simp add: toggleTodo_at [OF Some])
  with i show ?thesis by blast
qed

theorem toggleTodo_frame_witness:
  "''a1'' \<in> id_t ` set (items (todos exStore))
   \<and> (\<exists>i<length (items (todos exStore)). id_t (items (todos exStore) ! i) = ''a1''
        \<and> length (items (toggleTodo (todos exStore) ''a1'')) = length (items (todos exStore))
        \<and> title (items (toggleTodo (todos exStore) ''a1'') ! i) = title (items (todos exStore) ! i)
        \<and> done_t (items (toggleTodo (todos exStore) ''a1'') ! i)
            = (\<not> done_t (items (todos exStore) ! i)))
   \<and> items (toggleTodo (todos exStore) ''a1'') = [exA\<lparr>done_t := True\<rparr>, exB, exC]"
proof -
  have h: "''a1'' \<in> id_t ` set (items (todos exStore))"
    by (simp add: exStore_def exA_def exB_def exC_def)
  have c: "items (toggleTodo (todos exStore) ''a1'') = [exA\<lparr>done_t := True\<rparr>, exB, exC]"
    by (simp add: toggleTodo_def exStore_def exA_def exB_def exC_def)
  from toggleTodo_frame [OF h] have
    "\<exists>i<length (items (todos exStore)). id_t (items (todos exStore) ! i) = ''a1''
        \<and> length (items (toggleTodo (todos exStore) ''a1'')) = length (items (todos exStore))
        \<and> title (items (toggleTodo (todos exStore) ''a1'') ! i) = title (items (todos exStore) ! i)
        \<and> done_t (items (toggleTodo (todos exStore) ''a1'') ! i)
            = (\<not> done_t (items (todos exStore) ! i))"
    by blast
  with h c show ?thesis by blast
qed

end
